theory Spec2Isabelle
  imports Complex_Main "HOL-Library.Multiset"
begin

text \<open>
  The novelty filter and the personalised ranking of \<^verbatim>\<open>daily_academic_report.py\<close>:
  \<^verbatim>\<open>load_seen_keys\<close>, \<^verbatim>\<open>update_seen_keys\<close>, \<^verbatim>\<open>filter_new_items\<close>,
  \<^verbatim>\<open>score_item_with_deepseek\<close>, \<^verbatim>\<open>translate_text_to_zh\<close> and
  \<^verbatim>\<open>personalized_recommendations\<close>, with the file at \<^verbatim>\<open>SEEN_PATH\<close> as explicit state and
  the remote service as a function from requests to outcomes.
\<close>

section \<open>Items and identity keys\<close>

text \<open>
  A feed entry, one row of the data frame that \<^verbatim>\<open>daily_academic_report.py\<close> works on.
  The fields that the source only interpolates into f-strings are held as the strings so
  rendered; a character stands for one code point below 256. The source calls a string
  method on \<^verbatim>\<open>summary\<close> alone, so that cell is kept as it is: a string, or \<open>None\<close> for a
  cell that is no string, as the float \<^verbatim>\<open>NaN\<close> that \<^verbatim>\<open>read_csv\<close> gives for the empty
  summary \<^verbatim>\<open>fetch_feeds.py\<close> writes for an entry without one. The two time stamps are the
  values \<^verbatim>\<open>pd.to_datetime(..., errors="coerce", utc=True)\<close> yields, \<open>None\<close> being \<^verbatim>\<open>NaT\<close>.
\<close>

record item =
  feed_id :: string
  feed_name :: string
  title :: string
  link :: string
  summary :: "string option"
  published :: "int option"
  fetched_at :: "int option"
  doi :: "string option"

text \<open>The key \<^verbatim>\<open>f"{r.get('feed_id', '')}||{r.get('link', '')}"\<close>.\<close>

definition key_of :: "item \<Rightarrow> string" where
  "key_of r = feed_id r @ ''||'' @ link r"

section \<open>The seen-set store\<close>

text \<open>
  \<^verbatim>\<open>SEEN_PATH\<close> is absent (\<open>None\<close>) or holds a file. \<^verbatim>\<open>pd.read_csv\<close> either raises on
  the file (\<open>Unreadable\<close>) or returns a frame: column names and rows of cells, a cell
  being a value (held as the string \<^verbatim>\<open>str\<close> renders) or \<^verbatim>\<open>NaN\<close> (\<open>None\<close>). A frame
  written by \<^verbatim>\<open>to_csv(index=False)\<close> is taken to be read back as it was written.
\<close>

type_synonym cell = "string option"

record frame =
  columns :: "string list"
  rows :: "cell list list"

datatype seen_file = Unreadable | Csv frame

type_synonym store = "seen_file option"

text \<open>The cell of a row under a column name; \<^verbatim>\<open>NaN\<close> where the row has none.\<close>

definition cell_at :: "string list \<Rightarrow> cell list \<Rightarrow> string \<Rightarrow> cell" where
  "cell_at cols row c = (case map_of (zip cols row) c of None \<Rightarrow> None | Some v \<Rightarrow> v)"

definition column :: "frame \<Rightarrow> string \<Rightarrow> cell list" where
  "column f c = map (\<lambda>r. cell_at (columns f) r c) (rows f)"

text \<open>\<^verbatim>\<open>astype(str)\<close> on one cell: \<^verbatim>\<open>NaN\<close> becomes the string \<^verbatim>\<open>nan\<close>.\<close>

definition astype_str :: "cell \<Rightarrow> string" where
  "astype_str v = (case v of None \<Rightarrow> ''nan'' | Some s \<Rightarrow> s)"

definition load_seen_keys :: "store \<Rightarrow> string set option" where
  "load_seen_keys st =
     (case st of
        None \<Rightarrow> None
      | Some Unreadable \<Rightarrow> None
      | Some (Csv df_seen) \<Rightarrow>
          if ''key'' \<notin> set (columns df_seen) then None
          else Some (set (map astype_str (column df_seen ''key''))))"

text \<open>\<^verbatim>\<open>drop_duplicates()\<close>: the first occurrence of every row is kept, in order.\<close>

fun keep_first :: "'a set \<Rightarrow> 'a list \<Rightarrow> 'a list" where
  "keep_first seen [] = []"
| "keep_first seen (x # xs) =
     (if x \<in> seen then keep_first seen xs else x # keep_first (insert x seen) xs)"

definition drop_duplicates :: "'a list \<Rightarrow> 'a list" where
  "drop_duplicates xs = keep_first {} xs"

text \<open>
  \<^verbatim>\<open>pd.concat([a, b], ignore_index=True)\<close>: the columns of \<open>a\<close>, then those of \<open>b\<close> that
  \<open>a\<close> lacks; every row is laid out under the joint columns, \<^verbatim>\<open>NaN\<close> where it has no cell.
\<close>

definition reindex :: "string list \<Rightarrow> string list \<Rightarrow> cell list \<Rightarrow> cell list" where
  "reindex cols cols' row = map (cell_at cols row) cols'"

definition concat_frames :: "frame \<Rightarrow> frame \<Rightarrow> frame" where
  "concat_frames a b =
     (let cols = columns a @ filter (\<lambda>c. c \<notin> set (columns a)) (columns b)
      in \<lparr>columns = cols,
          rows = map (reindex (columns a) cols) (rows a) @ map (reindex (columns b) cols) (rows b)\<rparr>)"

definition update_seen_keys :: "item list \<Rightarrow> store \<Rightarrow> store" where
  "update_seen_keys df st =
     (if df = [] then st
      else
        let keys = map key_of df;
            df_new = \<lparr>columns = [''key''], rows = drop_duplicates (map (\<lambda>k. [Some k]) keys)\<rparr>
        in case st of
             Some old \<Rightarrow>
               let df_old = (case old of
                               Unreadable \<Rightarrow> \<lparr>columns = [''key''], rows = []\<rparr>
                             | Csv f \<Rightarrow> f);
                   df_all = concat_frames df_old df_new
               in Some (Csv (df_all\<lparr>rows := drop_duplicates (rows df_all)\<rparr>))
           | None \<Rightarrow> Some (Csv df_new))"

text \<open>
  \<^verbatim>\<open>filter_new_items\<close> returns the new rows and the baseline flag; the third component is
  the store it leaves behind.
\<close>

definition filter_new_items :: "item list \<Rightarrow> store \<Rightarrow> item list \<times> bool \<times> store" where
  "filter_new_items recent_df st =
     (case load_seen_keys st of
        None \<Rightarrow> (recent_df, True, update_seen_keys recent_df st)
      | Some seen_keys \<Rightarrow>
          if recent_df = [] then (recent_df, False, st)
          else (filter (\<lambda>r. key_of r \<notin> seen_keys) recent_df, False,
                update_seen_keys recent_df st))"

text \<open>The keys a later \<^verbatim>\<open>load_seen_keys\<close> finds in the store; none where it returns \<^verbatim>\<open>None\<close>.\<close>

definition store_keys :: "store \<Rightarrow> string set" where
  "store_keys st = (case load_seen_keys st of None \<Rightarrow> {} | Some ks \<Rightarrow> ks)"

text \<open>The data rows of the file at \<^verbatim>\<open>SEEN_PATH\<close>, none when it is absent or unreadable.\<close>

definition stored_rows :: "store \<Rightarrow> cell list list" where
  "stored_rows st = (case st of Some (Csv f) \<Rightarrow> rows f | _ \<Rightarrow> [])"

text \<open>A run of the pipeline's two store operations, one after the other.\<close>

datatype operation = Classify "item list" | Update "item list"

fun step :: "operation \<Rightarrow> store \<Rightarrow> store" where
  "step (Classify b) st = snd (snd (filter_new_items b st))"
| "step (Update b) st = update_seen_keys b st"

definition run :: "operation list \<Rightarrow> store \<Rightarrow> store" where
  "run ops st = fold step ops st"

section \<open>The relevance oracle\<close>

text \<open>
  A call of \<^verbatim>\<open>client.chat.completions.create\<close> raises or returns; the content of the
  first choice's message is a string or \<^verbatim>\<open>None\<close>. A request carries what the source
  interpolates into its messages: the fields of the scoring prompt, or the text to translate.
\<close>

datatype outcome = Raised | Returned "string option"

text \<open>The exceptions that leave the functions modelled here.\<close>

datatype error = ValueError | AttributeError

record prompt =
  p_profile :: string
  p_feed_name :: string
  p_title :: string
  p_snippet :: string
  p_link :: string
  p_doi :: string

datatype request = Score prompt | Translate string

type_synonym client = "request \<Rightarrow> outcome"

text \<open>\<^verbatim>\<open>str.strip()\<close>: the white space of Python among the code points below 256.\<close>

definition is_space :: "char \<Rightarrow> bool" where
  "is_space c = (c \<in> set [CHR 0x09, CHR 0x0A, CHR 0x0B, CHR 0x0C, CHR 0x0D, CHR 0x1C, CHR 0x1D,
                           CHR 0x1E, CHR 0x1F, CHR 0x20, CHR 0x85, CHR 0xA0])"

definition strip :: "string \<Rightarrow> string" where
  "strip s = rev (dropWhile is_space (rev (dropWhile is_space s)))"

text \<open>\<^verbatim>\<open>re.findall(r"\d+", content)\<close>: the maximal runs of decimal digits, left to right.\<close>

definition is_digit :: "char \<Rightarrow> bool" where
  "is_digit c = (c \<in> set ''0123456789'')"

fun digit_runs :: "string \<Rightarrow> string \<Rightarrow> string list" where
  "digit_runs cur [] = (if cur = [] then [] else [cur])"
| "digit_runs cur (c # cs) =
     (if is_digit c then digit_runs (cur @ [c]) cs
      else if cur = [] then digit_runs [] cs
      else cur # digit_runs [] cs)"

definition findall_digits :: "string \<Rightarrow> string list" where
  "findall_digits s = digit_runs [] s"

text \<open>
  \<^verbatim>\<open>float(digits[0])\<close>, as the number the digits denote. The source clamps it at once with
  \<^verbatim>\<open>max(0.0, min(100.0, score))\<close>: rounding to a double keeps the whole numbers up to
  100 and keeps every larger one at 100 or above, so the clamped score is the one computed here.
\<close>

definition digit_value :: "char \<Rightarrow> nat" where
  "digit_value c = of_char c - 48"

definition float_of_digits :: "string \<Rightarrow> real" where
  "float_of_digits ds = real (foldl (\<lambda>n c. 10 * n + digit_value c) 0 ds)"

text \<open>The prompt for a row whose summary is the string \<open>s\<close>.\<close>

definition score_prompt :: "string \<Rightarrow> item \<Rightarrow> string \<Rightarrow> prompt" where
  "score_prompt user_profile it s =
     (let content_snippet = (if strip s \<noteq> [] then s else title it)
      in \<lparr>p_profile = user_profile, p_feed_name = feed_name it, p_title = title it,
          p_snippet = content_snippet, p_link = link it,
          p_doi = (case doi it of None \<Rightarrow> [] | Some d \<Rightarrow> d)\<rparr>)"

text \<open>
  \<^verbatim>\<open>item.get("summary", "") or ""\<close> keeps a \<^verbatim>\<open>NaN\<close>, which is truthy, and
  \<^verbatim>\<open>summary.strip()\<close> stands before the \<^verbatim>\<open>try\<close>: on a summary that is no string it raises
  \<^verbatim>\<open>AttributeError\<close> out of the function. Everything after it is inside the \<^verbatim>\<open>try\<close>, whose
  \<^verbatim>\<open>except\<close> returns 0.
\<close>

definition score_item_with_deepseek :: "client \<Rightarrow> string \<Rightarrow> item \<Rightarrow> error + real" where
  "score_item_with_deepseek client user_profile it =
     (case summary it of
        None \<Rightarrow> Inl AttributeError
      | Some s \<Rightarrow>
          Inr (case client (Score (score_prompt user_profile it s)) of
                 Raised \<Rightarrow> 0
               | Returned None \<Rightarrow> 0
               | Returned (Some content) \<Rightarrow>
                   (case findall_digits (strip content) of
                      [] \<Rightarrow> 0
                    | d # _ \<Rightarrow> max 0 (min 100 (float_of_digits d)))))"

definition translate_text_to_zh :: "client \<Rightarrow> string \<Rightarrow> string" where
  "translate_text_to_zh client text0 =
     (let text = strip text0
      in if text = [] then []
         else case client (Translate text) of
                Raised \<Rightarrow> text
              | Returned content \<Rightarrow> strip (case content of None \<Rightarrow> [] | Some c \<Rightarrow> c))"

text \<open>The first run of decimal digits of a text, in the words of the specification.\<close>

definition spec_first_digit_run :: "string \<Rightarrow> string" where
  "spec_first_digit_run s = takeWhile is_digit (dropWhile (\<lambda>c. \<not> is_digit c) s)"

text \<open>
  The number a run of decimal digits denotes, apart from the source's conversion: a digit
  counts its place in \<^verbatim>\<open>0123456789\<close>, and a run counts its last digit and ten times the
  run before it.
\<close>

definition spec_digit :: "char \<Rightarrow> nat" where
  "spec_digit c = length (takeWhile (\<lambda>d. d \<noteq> c) ''0123456789'')"

fun spec_decimal_rev :: "string \<Rightarrow> nat" where
  "spec_decimal_rev [] = 0"
| "spec_decimal_rev (d # ds) = spec_digit d + 10 * spec_decimal_rev ds"

definition spec_decimal :: "string \<Rightarrow> nat" where
  "spec_decimal ds = spec_decimal_rev (rev ds)"

section \<open>Personalised ranking\<close>

text \<open>
  The \<^verbatim>\<open>personalization\<close> section of the settings; a key that is absent is \<open>None\<close> and
  takes the default of the source's \<^verbatim>\<open>.get\<close>.
\<close>

record personalization =
  enable :: "bool option"
  user_profile :: "string option"
  max_candidates :: "int option"
  top_n :: "int option"
  max_workers :: "int option"

definition cfg_enable :: "personalization \<Rightarrow> bool" where
  "cfg_enable p = (case enable p of None \<Rightarrow> False | Some b \<Rightarrow> b)"

definition cfg_user_profile :: "personalization \<Rightarrow> string" where
  "cfg_user_profile p = strip (case user_profile p of None \<Rightarrow> [] | Some s \<Rightarrow> s)"

definition cfg_max_candidates :: "personalization \<Rightarrow> int" where
  "cfg_max_candidates p = (case max_candidates p of None \<Rightarrow> 80 | Some n \<Rightarrow> n)"

definition cfg_top_n :: "personalization \<Rightarrow> int" where
  "cfg_top_n p = (case top_n p of None \<Rightarrow> 10 | Some n \<Rightarrow> n)"

definition cfg_max_workers :: "personalization \<Rightarrow> int" where
  "cfg_max_workers p = (case max_workers p of None \<Rightarrow> 20 | Some n \<Rightarrow> n)"

text \<open>
  \<^verbatim>\<open>get_deepseek_client\<close>: no client without a non-empty \<^verbatim>\<open>DEEPSEEK_API_KEY\<close>; with
  one, the client answers as the remote service does.
\<close>

definition get_deepseek_client :: "string option \<Rightarrow> client \<Rightarrow> client option" where
  "get_deepseek_client api_key service =
     (case api_key of None \<Rightarrow> None | Some k \<Rightarrow> if k = [] then None else Some service)"

text \<open>\<^verbatim>\<open>DataFrame.head(n)\<close> is \<^verbatim>\<open>iloc[:n]\<close>: a negative \<open>n\<close> drops the last \<open>-n\<close> rows.\<close>

definition head :: "int \<Rightarrow> 'a list \<Rightarrow> 'a list" where
  "head n xs = (if 0 \<le> n then take (nat n) xs else take (length xs - nat (- n)) xs)"

definition fillna :: "'a option \<Rightarrow> 'a option \<Rightarrow> 'a option" where
  "fillna a b = (case a of None \<Rightarrow> b | Some v \<Rightarrow> Some v)"

text \<open>A candidate is a row with its \<^verbatim>\<open>_ts\<close>; a scored candidate adds \<^verbatim>\<open>_personal_score\<close>.\<close>

type_synonym candidate = "item \<times> int option"

type_synonym scored = "candidate \<times> real"

definition personal_score :: "scored \<Rightarrow> real" where
  "personal_score c = snd c"

text \<open>
  \<^verbatim>\<open>list(executor.map(_score, items))\<close>: the scores in the order of the candidates; where
  a call raised, the first such exception in that order is raised again.
\<close>

fun collect_scores :: "(error + real) list \<Rightarrow> error + real list" where
  "collect_scores [] = Inr []"
| "collect_scores (r # rs) =
     (case r of
        Inl e \<Rightarrow> Inl e
      | Inr v \<Rightarrow> (case collect_scores rs of Inl e \<Rightarrow> Inl e | Inr vs \<Rightarrow> Inr (v # vs)))"

text \<open>
  The two calls of \<^verbatim>\<open>sort_values(..., ascending=False)\<close> run the library's default
  algorithm, which is no part of this program: they are the parameters \<open>sort_ts\<close> and
  \<open>sort_score\<close>. \<^verbatim>\<open>ThreadPoolExecutor\<close> raises \<^verbatim>\<open>ValueError\<close> unless \<^verbatim>\<open>max_workers\<close> is
  positive. No exception is caught in this function.
\<close>

definition personalized_recommendations ::
  "(candidate list \<Rightarrow> candidate list) \<Rightarrow> (scored list \<Rightarrow> scored list) \<Rightarrow>
   string option \<Rightarrow> client \<Rightarrow> item list \<Rightarrow> personalization \<Rightarrow> error + scored list option" where
  "personalized_recommendations sort_ts sort_score api_key service recent_df p =
     (if \<not> cfg_enable p then Inr None
      else if cfg_user_profile p = [] then Inr None
      else case get_deepseek_client api_key service of
             None \<Rightarrow> Inr None
           | Some client \<Rightarrow>
               if recent_df = [] then Inr None
               else
                 let tmp = sort_ts (map (\<lambda>r. (r, fillna (published r) (fetched_at r))) recent_df);
                     candidates = head (cfg_max_candidates p) tmp
                 in if cfg_max_workers p \<le> 0 then Inl ValueError
                    else
                      case collect_scores
                             (map (\<lambda>c. score_item_with_deepseek client (cfg_user_profile p) (fst c))
                                candidates) of
                        Inl e \<Rightarrow> Inl e
                      | Inr scores \<Rightarrow>
                          Inr (Some (head (cfg_top_n p) (sort_score (zip candidates scores)))))"

text \<open>What the library promises of a sort whatever its algorithm: the rows are rearranged.\<close>

definition reorders :: "('a list \<Rightarrow> 'a list) \<Rightarrow> bool" where
  "reorders srt = (\<forall>xs. mset (srt xs) = mset xs)"

text \<open>One such sort, by insertion: descending, rows that compare equal keep their order.\<close>

fun insert_desc :: "('a \<Rightarrow> 'a \<Rightarrow> bool) \<Rightarrow> 'a \<Rightarrow> 'a list \<Rightarrow> 'a list" where
  "insert_desc below x [] = [x]"
| "insert_desc below x (y # ys) =
     (if below x y then y # insert_desc below x ys else x # y # ys)"

definition sort_desc :: "('a \<Rightarrow> 'a \<Rightarrow> bool) \<Rightarrow> 'a list \<Rightarrow> 'a list" where
  "sort_desc below xs = foldr (insert_desc below) xs []"

text \<open>A row sorts below another by \<^verbatim>\<open>_ts\<close> (\<^verbatim>\<open>NaT\<close> below every time), or by score.\<close>

definition ts_below :: "candidate \<Rightarrow> candidate \<Rightarrow> bool" where
  "ts_below a b = (case snd b of None \<Rightarrow> False
                   | Some t \<Rightarrow> (case snd a of None \<Rightarrow> True | Some s \<Rightarrow> s < t))"

definition score_below :: "scored \<Rightarrow> scored \<Rightarrow> bool" where
  "score_below a b = (personal_score a < personal_score b)"

text \<open>
  The same with the order the second call asks for: descending by score. \<open>sort_desc_late\<close>
  meets it as \<open>sort_desc\<close> does, and returns rows that compare equal in reverse order.
\<close>

definition sorts_by_score :: "(scored list \<Rightarrow> scored list) \<Rightarrow> bool" where
  "sorts_by_score srt =
     (\<forall>xs. mset (srt xs) = mset xs
         \<and> sorted_wrt (\<lambda>a b. personal_score b \<le> personal_score a) (srt xs))"

definition sort_desc_late :: "('a \<Rightarrow> 'a \<Rightarrow> bool) \<Rightarrow> 'a list \<Rightarrow> 'a list" where
  "sort_desc_late below xs = sort_desc below (rev xs)"

section \<open>Auxiliary definitions and sample data\<close>

text \<open>The cells under \<^verbatim>\<open>key\<close> of the frame read from the file; none without a readable file.\<close>

definition raw_keys :: "store \<Rightarrow> cell set" where
  "raw_keys st = (case st of Some (Csv f) \<Rightarrow> set (column f ''key'') | _ \<Rightarrow> {})"

text \<open>
  Sample rows, stores, settings and services. \<open>seen_u1\<close> is a seen list with one key;
  \<open>stale_store\<close> is a readable file without the \<^verbatim>\<open>key\<close> column; \<open>item_C_u5\<close> is a row
  read back from a raw file in which its summary field is empty.
\<close>

definition item_A_u1 :: item where
  "item_A_u1 = \<lparr>feed_id = ''A'', feed_name = ''Journal A'', title = ''first'', link = ''u1'',
     summary = Some ''s1'', published = Some 20, fetched_at = Some 30, doi = None\<rparr>"

definition item_A_u2 :: item where
  "item_A_u2 = \<lparr>feed_id = ''A'', feed_name = ''Journal A'', title = ''second'', link = ''u2'',
     summary = Some ''s2'', published = None, fetched_at = Some 30, doi = Some ''10.1/x''\<rparr>"

definition seen_u1 :: store where
  "seen_u1 = Some (Csv \<lparr>columns = [''key''], rows = [[Some ''A||u1'']]\<rparr>)"

definition stale_store :: store where
  "stale_store = Some (Csv \<lparr>columns = [''title''], rows = [[Some ''x'']]\<rparr>)"

definition item_B_u3 :: item where
  "item_B_u3 = \<lparr>feed_id = ''B'', feed_name = ''Journal B'', title = ''third'', link = ''u3'',
     summary = Some '' '', published = Some 40, fetched_at = None, doi = None\<rparr>"

definition item_B_u4 :: item where
  "item_B_u4 = \<lparr>feed_id = ''B'', feed_name = ''Journal B'', title = ''fifth'', link = ''u4'',
     summary = Some ''s4'', published = Some 10, fetched_at = None, doi = None\<rparr>"

definition item_C_u5 :: item where
  "item_C_u5 = \<lparr>feed_id = ''C'', feed_name = ''Journal C'', title = ''first'', link = ''u5'',
     summary = None, published = Some 50, fetched_at = Some 60, doi = None\<rparr>"

definition demo_service :: client where
  "demo_service req =
     (case req of
        Score q \<Rightarrow> (if p_title q = ''first'' then Returned (Some ''85'')
                    else if p_title q = ''second'' then Returned (Some '' about 120 of 100'')
                    else if p_title q = ''third'' then Raised
                    else if p_title q = ''fourth'' then Returned (Some ''n/a'')
                    else if p_title q = ''sixth'' then Returned (Some ''Score: 7 (of 100)'')
                    else Returned None)
      | Translate t \<Rightarrow> Raised)"

definition failing_service :: client where
  "failing_service req = Raised"

definition demo_settings :: personalization where
  "demo_settings = \<lparr>enable = Some True, user_profile = Some ''nlp'', max_candidates = Some 2,
     top_n = Some 5, max_workers = None\<rparr>"

lemmas example_defs = item_A_u1_def item_A_u2_def seen_u1_def stale_store_def

lemmas item_defs = item_A_u1_def item_A_u2_def item_B_u3_def item_B_u4_def item_C_u5_def

lemmas store_defs = update_seen_keys_def load_seen_keys_def store_keys_def filter_new_items_def
  stored_rows_def key_of_def column_def cell_at_def astype_str_def drop_duplicates_def
  concat_frames_def reindex_def run_def Let_def

lemmas oracle_defs = score_item_with_deepseek_def score_prompt_def findall_digits_def strip_def
  is_space_def is_digit_def float_of_digits_def digit_value_def spec_first_digit_run_def
  spec_decimal_def spec_digit_def translate_text_to_zh_def

lemmas ranking_defs = personalized_recommendations_def get_deepseek_client_def cfg_enable_def
  cfg_user_profile_def cfg_max_candidates_def cfg_top_n_def cfg_max_workers_def head_def
  fillna_def sort_desc_def ts_below_def score_below_def personal_score_def Let_def

section \<open>Facts about the store operations\<close>

lemma set_keep_first: "set (keep_first S xs) = set xs - S"
  by (induction xs arbitrary: S) auto

lemma distinct_keep_first: "distinct (keep_first S xs)"
  by (induction xs arbitrary: S) (auto simp: set_keep_first)

lemma keep_first_append:
  "keep_first S (xs @ ys) = keep_first S xs @ keep_first (S \<union> set xs) ys"
  by (induction xs arbitrary: S) (auto simp: insert_absorb)

lemma keep_first_covered: "set ys \<subseteq> S \<Longrightarrow> keep_first S ys = []"
  by (induction ys arbitrary: S) auto

lemma keep_first_fixed: "distinct zs \<Longrightarrow> set zs \<inter> S = {} \<Longrightarrow> keep_first S zs = zs"
  by (induction zs arbitrary: S) auto

lemma set_drop_duplicates: "set (drop_duplicates xs) = set xs"
  by (simp add: drop_duplicates_def set_keep_first)

lemma distinct_drop_duplicates: "distinct (drop_duplicates xs)"
  by (simp add: drop_duplicates_def distinct_keep_first)

lemma drop_duplicates_absorb:
  "set ys \<subseteq> set xs \<Longrightarrow> drop_duplicates (drop_duplicates xs @ ys) = drop_duplicates xs"
  by (simp add: drop_duplicates_def keep_first_append keep_first_covered keep_first_fixed
      distinct_keep_first set_keep_first)

lemma cell_at_map: "c \<in> set cols \<Longrightarrow> cell_at cols (map g cols) c = g c"
  by (simp add: cell_at_def map_of_zip_map)

lemma cell_at_reindex:
  "c \<in> set cols' \<Longrightarrow> cell_at cols' (reindex cols cols' row) c = cell_at cols row c"
  by (simp add: reindex_def cell_at_map)

lemma reindex_reindex:
  "reindex cols' cols' (reindex cols cols' row) = reindex cols cols' row"
  by (simp add: reindex_def cell_at_map)

lemma columns_concat:
  "columns (concat_frames a b) = columns a @ filter (\<lambda>c. c \<notin> set (columns a)) (columns b)"
  by (simp add: concat_frames_def Let_def)

lemma rows_concat:
  "rows (concat_frames a b) =
     map (reindex (columns a) (columns (concat_frames a b))) (rows a)
     @ map (reindex (columns b) (columns (concat_frames a b))) (rows b)"
  by (simp add: concat_frames_def Let_def)

lemma update_nil: "update_seen_keys [] st = st"
  by (simp add: update_seen_keys_def)

lemma column_concat:
  assumes "c \<in> set (columns a) \<union> set (columns b)"
  shows "column (concat_frames a b) c = column a c @ column b c"
proof -
  have "c \<in> set (columns (concat_frames a b))"
    using assms by (auto simp: columns_concat)
  then show ?thesis
    by (simp add: column_def rows_concat cell_at_reindex)
qed

lemma column_drop_rows:
  "set (column (f\<lparr>rows := drop_duplicates (rows f)\<rparr>) c) = set (column f c)"
  by (simp add: column_def set_drop_duplicates)

lemma column_new:
  "set (column \<lparr>columns = [''key''], rows = drop_duplicates (map (\<lambda>k. [Some k]) ks)\<rparr> ''key'')
     = Some ` set ks"
  by (simp add: column_def set_drop_duplicates cell_at_def image_image)

lemma load_update:
  assumes "B \<noteq> []"
  shows "load_seen_keys (update_seen_keys B st)
           = Some (astype_str ` raw_keys st \<union> set (map key_of B))"
proof -
  let ?new = "\<lparr>columns = [''key''], rows = drop_duplicates (map (\<lambda>k. [Some k]) (map key_of B))\<rparr>"
  have new: "astype_str ` set (column ?new ''key'') = set (map key_of B)"
    unfolding column_new by (simp add: image_image astype_str_def)
  show ?thesis
  proof (cases st)
    case None
    have "update_seen_keys B st = Some (Csv ?new)"
      using assms None by (simp add: update_seen_keys_def)
    then show ?thesis
      using new None by (simp add: load_seen_keys_def raw_keys_def)
  next
    case (Some old)
    define df_old where "df_old = (case old of Unreadable \<Rightarrow> \<lparr>columns = [''key''], rows = []\<rparr> | Csv f \<Rightarrow> f)"
    define df_all where "df_all = concat_frames df_old ?new"
    have upd: "update_seen_keys B st = Some (Csv (df_all\<lparr>rows := drop_duplicates (rows df_all)\<rparr>))"
      using assms Some by (simp add: update_seen_keys_def df_old_def df_all_def Let_def)
    have cols: "''key'' \<in> set (columns df_all)"
      by (simp add: df_all_def columns_concat)
    have "set (column df_all ''key'') = set (column df_old ''key'') \<union> set (column ?new ''key'')"
      unfolding df_all_def by (subst column_concat) simp_all
    moreover have "set (column df_old ''key'') = raw_keys st"
      using Some by (cases old) (simp_all add: df_old_def raw_keys_def column_def)
    ultimately have "astype_str ` set (column (df_all\<lparr>rows := drop_duplicates (rows df_all)\<rparr>) ''key'')
        = astype_str ` raw_keys st \<union> set (map key_of B)"
      using new by (simp only: column_drop_rows image_Un)
    then show ?thesis
      using upd cols by (simp add: load_seen_keys_def)
  qed
qed

lemma store_keys_update:
  "B \<noteq> [] \<Longrightarrow> store_keys (update_seen_keys B st) = astype_str ` raw_keys st \<union> set (map key_of B)"
  by (simp add: store_keys_def load_update)

lemma store_keys_raw:
  "load_seen_keys st = Some ks \<Longrightarrow> astype_str ` raw_keys st = ks"
  by (auto simp: load_seen_keys_def raw_keys_def split: option.splits seen_file.splits if_splits)

lemma raw_keys_no_rows: "stored_rows st = [] \<Longrightarrow> raw_keys st = {}"
  by (auto simp: stored_rows_def raw_keys_def column_def split: option.splits seen_file.splits)

lemma update_fixed:
  assumes B: "B \<noteq> []" and key: "''key'' \<in> set C"
    and fixed: "\<And>r. r \<in> set R \<Longrightarrow> reindex C C r = r"
    and new: "reindex [''key''] C ` set (map (\<lambda>k. [Some k]) (map key_of B)) \<subseteq> set R"
  shows "update_seen_keys B (Some (Csv \<lparr>columns = C, rows = drop_duplicates R\<rparr>))
           = Some (Csv \<lparr>columns = C, rows = drop_duplicates R\<rparr>)"
proof -
  let ?N = "drop_duplicates (map (\<lambda>k. [Some k]) (map key_of B))"
  have cols: "C @ filter (\<lambda>c. c \<notin> set C) [''key''] = C"
    using key by simp
  have old: "map (reindex C C) (drop_duplicates R) = drop_duplicates R"
    by (rule map_idI) (simp add: fixed set_drop_duplicates)
  have "set (map (reindex [''key''] C) ?N) \<subseteq> set R"
    using new by (simp add: set_drop_duplicates)
  then have "drop_duplicates (drop_duplicates R @ map (reindex [''key''] C) ?N) = drop_duplicates R"
    by (rule drop_duplicates_absorb)
  then show ?thesis
    using B key by (simp add: update_seen_keys_def Let_def concat_frames_def old del: map_map)
qed

lemma update_idem: "update_seen_keys B (update_seen_keys B st) = update_seen_keys B st"
proof (cases "B = []")
  case True
  then show ?thesis by (simp add: update_nil)
next
  case False
  let ?K = "map (\<lambda>k. [Some k]) (map key_of B)"
  show ?thesis
  proof (cases st)
    case None
    have first: "update_seen_keys B st = Some (Csv \<lparr>columns = [''key''], rows = drop_duplicates ?K\<rparr>)"
      using False None by (simp add: update_seen_keys_def)
    have "update_seen_keys B (Some (Csv \<lparr>columns = [''key''], rows = drop_duplicates ?K\<rparr>))
            = Some (Csv \<lparr>columns = [''key''], rows = drop_duplicates ?K\<rparr>)"
      by (rule update_fixed [OF False]) (auto simp: reindex_def cell_at_def)
    then show ?thesis by (simp only: first)
  next
    case (Some old)
    define df_old where "df_old = (case old of Unreadable \<Rightarrow> \<lparr>columns = [''key''], rows = []\<rparr> | Csv f \<Rightarrow> f)"
    define C where "C = columns df_old @ filter (\<lambda>c. c \<notin> set (columns df_old)) [''key'']"
    define R where "R = map (reindex (columns df_old) C) (rows df_old)
                        @ map (reindex [''key''] C) (drop_duplicates ?K)"
    have first: "update_seen_keys B st = Some (Csv \<lparr>columns = C, rows = drop_duplicates R\<rparr>)"
      using False Some
      by (simp add: update_seen_keys_def Let_def concat_frames_def df_old_def C_def R_def del: map_map)
    have "update_seen_keys B (Some (Csv \<lparr>columns = C, rows = drop_duplicates R\<rparr>))
            = Some (Csv \<lparr>columns = C, rows = drop_duplicates R\<rparr>)"
    proof (rule update_fixed [OF False])
      show "''key'' \<in> set C" by (simp add: C_def)
      show "reindex C C r = r" if "r \<in> set R" for r
        using that by (auto simp: R_def reindex_reindex)
      show "reindex [''key''] C ` set ?K \<subseteq> set R"
        by (simp add: R_def set_drop_duplicates del: map_map)
    qed
    then show ?thesis by (simp only: first)
  qed
qed

lemma distinct_rows_update:
  "B \<noteq> [] \<Longrightarrow> distinct (stored_rows (update_seen_keys B st))"
  by (cases st)
    (simp_all add: update_seen_keys_def stored_rows_def Let_def distinct_drop_duplicates)

lemma store_keys_update_mono: "store_keys st \<subseteq> store_keys (update_seen_keys B st)"
proof (cases "B = []")
  case True
  then show ?thesis by (simp add: update_nil)
next
  case False
  show ?thesis
  proof (cases "load_seen_keys st")
    case None
    then show ?thesis by (simp add: store_keys_def)
  next
    case (Some ks)
    then have "astype_str ` raw_keys st = store_keys st"
      by (simp add: store_keys_raw store_keys_def)
    then show ?thesis
      using False by (simp add: store_keys_update del: set_map)
  qed
qed

lemma store_keys_step_mono: "store_keys st \<subseteq> store_keys (step x st)"
proof (cases x)
  case (Classify b)
  then show ?thesis
    by (auto simp: filter_new_items_def split: option.splits
        intro: subsetD [OF store_keys_update_mono])
next
  case (Update b)
  then show ?thesis by (simp add: store_keys_update_mono)
qed

lemma store_keys_run_mono: "store_keys st \<subseteq> store_keys (run ops st)"
proof (induction ops arbitrary: st)
  case Nil
  then show ?case by (simp add: run_def)
next
  case (Cons x ops)
  have "store_keys st \<subseteq> store_keys (step x st)" by (rule store_keys_step_mono)
  also have "\<dots> \<subseteq> store_keys (run ops (step x st))" by (rule Cons.IH)
  finally show ?case by (simp add: run_def)
qed

section \<open>Facts about the oracle and the ranking\<close>

lemma dropWhile_all: "\<forall>x \<in> set xs. P x \<Longrightarrow> dropWhile P xs = []"
  by simp

lemma digit_runs_open:
  "cur \<noteq> [] \<Longrightarrow>
     digit_runs cur s = (cur @ takeWhile is_digit s) # digit_runs [] (dropWhile is_digit s)"
  by (induction s arbitrary: cur) auto

lemma digit_runs_skip:
  "digit_runs [] s = digit_runs [] (dropWhile (\<lambda>c. \<not> is_digit c) s)"
  by (induction s) auto

lemma findall_digits_first:
  "findall_digits s =
     (if spec_first_digit_run s = [] then []
      else spec_first_digit_run s
             # digit_runs [] (dropWhile is_digit (dropWhile (\<lambda>c. \<not> is_digit c) s)))"
proof (cases "dropWhile (\<lambda>c. \<not> is_digit c) s")
  case Nil
  have "digit_runs [] s = digit_runs [] []"
    using digit_runs_skip [of s] by (simp only: Nil)
  then have dr: "digit_runs [] s = []" by simp
  have fr: "spec_first_digit_run s = []"
    by (simp only: spec_first_digit_run_def Nil takeWhile.simps)
  show ?thesis
    by (simp add: findall_digits_def dr fr)
next
  case (Cons c cs)
  then have c: "is_digit c"
    using hd_dropWhile [of "\<lambda>c. \<not> is_digit c" s] by auto
  then have "digit_runs [] (c # cs) = (c # takeWhile is_digit cs) # digit_runs [] (dropWhile is_digit cs)"
    by (simp add: digit_runs_open)
  then show ?thesis
    using Cons c digit_runs_skip [of s] by (simp add: findall_digits_def spec_first_digit_run_def)
qed

lemma space_not_digit: "is_space c \<Longrightarrow> \<not> is_digit c"
  by (auto simp: is_space_def is_digit_def)

lemma dropWhile_weaker:
  "(\<And>x. P x \<Longrightarrow> Q x) \<Longrightarrow> dropWhile Q (dropWhile P xs) = dropWhile Q xs"
  by (induction xs) auto

lemma takeWhile_tail_free:
  "\<forall>c \<in> set w. \<not> P c \<Longrightarrow> takeWhile P (u @ w) = takeWhile P u"
  by (induction u) (auto simp: takeWhile_eq_Nil_iff intro: takeWhile_eq_Nil_iff [THEN iffD2])

lemma first_run_tail_free:
  "\<forall>c \<in> set w. \<not> is_digit c \<Longrightarrow> spec_first_digit_run (u @ w) = spec_first_digit_run u"
proof (induction u)
  case Nil
  then show ?case by (simp add: spec_first_digit_run_def dropWhile_all)
next
  case (Cons c u)
  then show ?case
    by (cases "is_digit c") (simp_all add: spec_first_digit_run_def takeWhile_tail_free)
qed

lemma first_run_strip: "spec_first_digit_run (strip s) = spec_first_digit_run s"
proof -
  let ?t = "dropWhile is_space s"
  let ?w = "rev (takeWhile is_space (rev ?t))"
  have split: "strip s @ ?w = ?t"
    unfolding strip_def by (simp flip: rev_append)
  have "\<forall>c \<in> set ?w. \<not> is_digit c"
    by (auto dest: set_takeWhileD space_not_digit)
  then have "spec_first_digit_run (strip s @ ?w) = spec_first_digit_run (strip s)"
    by (rule first_run_tail_free)
  then have "spec_first_digit_run (strip s) = spec_first_digit_run ?t"
    by (simp only: split)
  also have "\<dots> = spec_first_digit_run s"
    by (simp add: spec_first_digit_run_def dropWhile_weaker space_not_digit)
  finally show ?thesis .
qed

lemma first_run_empty: "spec_first_digit_run s = [] \<longleftrightarrow> (\<forall>c \<in> set s. \<not> is_digit c)"
proof
  assume "\<forall>c \<in> set s. \<not> is_digit c"
  then show "spec_first_digit_run s = []" by (simp add: spec_first_digit_run_def dropWhile_all)
next
  assume e: "spec_first_digit_run s = []"
  show "\<forall>c \<in> set s. \<not> is_digit c"
  proof (cases "dropWhile (\<lambda>c. \<not> is_digit c) s")
    case Nil
    then show ?thesis by (simp add: dropWhile_eq_Nil_conv)
  next
    case (Cons c cs)
    then have "is_digit c"
      using hd_dropWhile [of "\<lambda>c. \<not> is_digit c" s] by auto
    with Cons e show ?thesis by (simp add: spec_first_digit_run_def)
  qed
qed

lemma strip_empty: "strip s = [] \<longleftrightarrow> (\<forall>c \<in> set s. is_space c)"
proof
  assume "\<forall>c \<in> set s. is_space c"
  then show "strip s = []" by (simp add: strip_def dropWhile_all)
next
  assume e: "strip s = []"
  show "\<forall>c \<in> set s. is_space c"
  proof (cases "dropWhile is_space s")
    case Nil
    then show ?thesis by (simp add: dropWhile_eq_Nil_conv)
  next
    case (Cons c cs)
    then have c: "\<not> is_space c"
      using hd_dropWhile [of is_space s] by auto
    have "dropWhile is_space (rev (c # cs)) \<noteq> []"
      using c by (simp add: dropWhile_append)
    with Cons e show ?thesis by (simp add: strip_def)
  qed
qed

lemma float_of_digits_nonneg: "0 \<le> float_of_digits d"
  by (simp add: float_of_digits_def)

lemma score_nan_summary:
  "summary it = None \<Longrightarrow> score_item_with_deepseek client prof it = Inl AttributeError"
  by (simp add: score_item_with_deepseek_def)

lemma score_text_summary:
  "summary it = Some s \<Longrightarrow>
     \<exists>v. score_item_with_deepseek client prof it = Inr v \<and> 0 \<le> v \<and> v \<le> 100"
  by (simp add: score_item_with_deepseek_def float_of_digits_nonneg
      split: outcome.splits option.splits list.splits)

lemma score_bounds:
  "score_item_with_deepseek client prof it = Inr v \<Longrightarrow> 0 \<le> v \<and> v \<le> 100"
  using score_text_summary [of it _ client prof] score_nan_summary [of it client prof]
  by (cases "summary it") auto


lemma collect_scores_first_error:
  "f r = Inl e \<Longrightarrow> collect_scores (map f (r # rs)) = Inl e"
  by simp

lemma digit_value_spec:
  assumes "is_digit c"
  shows "digit_value c = spec_digit c"
proof -
  from assms have "c \<in> set ''0123456789''"
    by (simp only: is_digit_def)
  then consider "c = CHR ''0''" | "c = CHR ''1''" | "c = CHR ''2''" | "c = CHR ''3''"
    | "c = CHR ''4''" | "c = CHR ''5''" | "c = CHR ''6''" | "c = CHR ''7''" | "c = CHR ''8''"
    | "c = CHR ''9''"
    by (simp only: set_simps insert_iff empty_iff) blast
  then show ?thesis
    by cases (simp_all add: digit_value_def spec_digit_def)
qed

lemma float_of_digits_spec:
  "list_all is_digit ds \<Longrightarrow> float_of_digits ds = real (spec_decimal ds)"
proof -
  have "list_all is_digit ds \<Longrightarrow>
          foldl (\<lambda>n c. 10 * n + digit_value c) 0 ds = spec_decimal_rev (rev ds)"
    by (induction ds rule: rev_induct) (simp_all add: digit_value_spec)
  then show "list_all is_digit ds \<Longrightarrow> float_of_digits ds = real (spec_decimal ds)"
    by (simp add: float_of_digits_def spec_decimal_def)
qed

lemma first_run_digits: "list_all is_digit (spec_first_digit_run s)"
  by (auto simp: spec_first_digit_run_def list_all_iff dest: set_takeWhileD)

lemma mset_insert_desc: "mset (insert_desc below x ys) = add_mset x (mset ys)"
  by (induction ys) auto

lemma reorders_sort_desc: "reorders (sort_desc below)"
proof -
  have "mset (sort_desc below xs) = mset xs" for xs :: "'a list"
    by (induction xs) (simp_all add: sort_desc_def mset_insert_desc)
  then show ?thesis by (simp add: reorders_def)
qed





subsection \<open>Rows of equal score\<close>

lemma set_insert_desc: "set (insert_desc below x ys) = insert x (set ys)"
  using mset_insert_desc [of below x ys] by (metis set_mset_add_mset_insert set_mset_mset)

lemma sorted_insert_desc:
  "sorted_wrt (\<lambda>a b. personal_score b \<le> personal_score a) ys \<Longrightarrow>
   sorted_wrt (\<lambda>a b. personal_score b \<le> personal_score a) (insert_desc score_below x ys)"
  by (induction ys) (auto simp: set_insert_desc score_below_def)

lemma sorted_sort_desc:
  "sorted_wrt (\<lambda>a b. personal_score b \<le> personal_score a) (sort_desc score_below xs)"
  by (induction xs) (simp_all add: sort_desc_def sorted_insert_desc)

lemma sorts_by_score_sort_desc: "sorts_by_score (sort_desc score_below)"
  using reorders_sort_desc [of score_below]
  by (simp add: sorts_by_score_def reorders_def sorted_sort_desc)

lemma sorts_by_score_sort_desc_late: "sorts_by_score (sort_desc_late score_below)"
  using reorders_sort_desc [of score_below]
  by (simp add: sorts_by_score_def reorders_def sort_desc_late_def sorted_sort_desc)

text \<open>
  Both sorts order by descending score, yet they return two rows of equal score in different
  orders: \<^verbatim>\<open>personalized_recommendations\<close> passes no \<^verbatim>\<open>kind\<close> to \<^verbatim>\<open>sort_values\<close>, so the
  order of such rows is the one the library's default algorithm happens to produce.
\<close>

lemma tie_order_follows_the_sort:
  "personalized_recommendations (sort_desc ts_below) (sort_desc score_below) (Some ''k'')
      demo_service [item_B_u3, item_B_u4] demo_settings
     = Inr (Some [((item_B_u3, Some 40), 0), ((item_B_u4, Some 10), 0)])
   \<and> personalized_recommendations (sort_desc ts_below) (sort_desc_late score_below) (Some ''k'')
      demo_service [item_B_u3, item_B_u4] demo_settings
     = Inr (Some [((item_B_u4, Some 10), 0), ((item_B_u3, Some 40), 0)])"
  by (simp add: ranking_defs oracle_defs sort_desc_late_def demo_service_def demo_settings_def
      item_B_u3_def item_B_u4_def)

section \<open>The claims of the specification\<close>

text \<open>
  C1, as stated, fails for a readable file that lacks the \<^verbatim>\<open>key\<close> column and holds a data
  row. \<^verbatim>\<open>load_seen_keys\<close> returns \<^verbatim>\<open>None\<close> for it, but \<^verbatim>\<open>update_seen_keys\<close> reads the
  file once more and concatenates the new keys to the old frame: the old row stays, and its
  empty \<^verbatim>\<open>key\<close> cell is read back as the key \<^verbatim>\<open>nan\<close>.
\<close>

theorem baseline_malformed_counterexample:
  "load_seen_keys stale_store = None
   \<and> store_keys (snd (snd (filter_new_items [item_A_u1] stale_store))) = {''nan'', ''A||u1''}
   \<and> store_keys (snd (snd (filter_new_items [item_A_u1] stale_store))) \<noteq> set (map key_of [item_A_u1])"
  by (simp add: store_defs example_defs)

text \<open>
  C1 (baseline property), amended. Whenever \<^verbatim>\<open>load_seen_keys\<close> returns \<^verbatim>\<open>None\<close>,
  \<^verbatim>\<open>filter_new_items\<close> returns the whole batch with the baseline flag set and runs
  \<^verbatim>\<open>update_seen_keys\<close> on it; the store left behind holds every identity key of the batch,
  and exactly those keys when the file at \<^verbatim>\<open>SEEN_PATH\<close> was absent, unreadable or without
  data rows.
\<close>

theorem baseline_seeds_store:
  assumes "load_seen_keys st = None"
  shows "filter_new_items B st = (B, True, update_seen_keys B st)
       \<and> set (map key_of B) \<subseteq> store_keys (update_seen_keys B st)
       \<and> (stored_rows st = [] \<longrightarrow> store_keys (update_seen_keys B st) = set (map key_of B))"
proof (cases "B = []")
  case True
  with assms show ?thesis
    by (simp add: filter_new_items_def update_nil store_keys_def)
next
  case False
  with assms show ?thesis
    by (simp add: filter_new_items_def store_keys_update raw_keys_no_rows del: set_map)
qed

theorem baseline_seeds_store_witness:
  "load_seen_keys None = None \<and> stored_rows None = []
   \<and> filter_new_items [item_A_u1, item_A_u2] None
        = ([item_A_u1, item_A_u2], True, update_seen_keys [item_A_u1, item_A_u2] None)
   \<and> store_keys (update_seen_keys [item_A_u1, item_A_u2] None) = {''A||u1'', ''A||u2''}"
  using baseline_seeds_store [of None "[item_A_u1, item_A_u2]"]
  by (simp add: load_seen_keys_def stored_rows_def key_of_def example_defs insert_commute)

text \<open>
  C2 (novelty correctness). When \<^verbatim>\<open>load_seen_keys\<close> returns a set \<open>seen\<close>,
  \<^verbatim>\<open>filter_new_items\<close> returns, with the baseline flag cleared, the rows of the batch whose
  key \<^verbatim>\<open>feed_id||link\<close> is not in \<open>seen\<close>, in the order of the batch; the store is updated
  with the keys of all rows of the batch, so that it then holds \<open>seen\<close> and every key of the
  batch.
\<close>

theorem novelty_correct:
  assumes "load_seen_keys st = Some seen"
  shows "filter_new_items B st
           = (filter (\<lambda>r. key_of r \<notin> seen) B, False, update_seen_keys B st)
       \<and> store_keys (update_seen_keys B st) = seen \<union> set (map key_of B)"
proof (cases "B = []")
  case True
  with assms show ?thesis
    by (simp add: filter_new_items_def update_nil store_keys_def)
next
  case False
  with assms show ?thesis
    by (simp add: filter_new_items_def store_keys_update store_keys_raw del: set_map)
qed

theorem novelty_correct_witness:
  "load_seen_keys seen_u1 = Some {''A||u1''}
   \<and> filter_new_items [item_A_u1, item_A_u2] seen_u1
        = ([item_A_u2], False, update_seen_keys [item_A_u1, item_A_u2] seen_u1)
   \<and> store_keys (update_seen_keys [item_A_u1, item_A_u2] seen_u1) = {''A||u1'', ''A||u2''}"
proof -
  have h: "load_seen_keys seen_u1 = Some {''A||u1''}"
    by (simp add: load_seen_keys_def column_def cell_at_def astype_str_def seen_u1_def)
  show ?thesis
    using h novelty_correct [OF h, of "[item_A_u1, item_A_u2]"]
    by (simp add: key_of_def item_A_u1_def item_A_u2_def insert_commute)
qed

text \<open>
  C3, as stated for every prior store, fails for a readable file that lacks the \<^verbatim>\<open>key\<close>
  column and holds a data row: no key is persisted before the update, and after it the store
  holds the key \<^verbatim>\<open>nan\<close> beside the keys of the batch, which is not their union.
\<close>

theorem update_union_counterexample:
  "store_keys stale_store = {}
   \<and> store_keys (update_seen_keys [item_A_u1] stale_store) = {''nan'', ''A||u1''}
   \<and> store_keys (update_seen_keys [item_A_u1] stale_store)
       \<noteq> store_keys stale_store \<union> set (map key_of [item_A_u1])"
  by (simp add: store_defs example_defs)

text \<open>
  C3 (idempotent union), amended. For every batch and every prior store, a second
  \<^verbatim>\<open>update_seen_keys\<close> with the same batch leaves the file as the first wrote it. When the
  prior file is absent, unreadable, without data rows, or has the \<^verbatim>\<open>key\<close> column, the keys
  persisted after an update are the union of those persisted before and the keys of the
  batch. The rows written by an update with a non-empty batch are free of duplicates.
\<close>

theorem update_idempotent_union:
  "update_seen_keys B (update_seen_keys B st) = update_seen_keys B st
   \<and> (load_seen_keys st \<noteq> None \<or> stored_rows st = [] \<longrightarrow>
        store_keys (update_seen_keys B st) = store_keys st \<union> set (map key_of B))
   \<and> (B \<noteq> [] \<longrightarrow> distinct (stored_rows (update_seen_keys B st)))"
proof (intro conjI impI)
  show "update_seen_keys B (update_seen_keys B st) = update_seen_keys B st"
    by (rule update_idem)
  show "distinct (stored_rows (update_seen_keys B st))" if "B \<noteq> []"
    using that by (rule distinct_rows_update)
  show "store_keys (update_seen_keys B st) = store_keys st \<union> set (map key_of B)"
    if h: "load_seen_keys st \<noteq> None \<or> stored_rows st = []"
  proof (cases "B = []")
    case True
    then show ?thesis by (simp add: update_nil)
  next
    case False
    have "astype_str ` raw_keys st = store_keys st"
    proof (cases "load_seen_keys st")
      case None
      with h have "stored_rows st = []" by simp
      then show ?thesis using None by (simp add: raw_keys_no_rows store_keys_def)
    next
      case (Some ks)
      then show ?thesis by (simp add: store_keys_raw store_keys_def)
    qed
    with False show ?thesis by (simp add: store_keys_update del: set_map)
  qed
qed

theorem update_idempotent_union_witness:
  "update_seen_keys [item_A_u2] (update_seen_keys [item_A_u2] seen_u1)
     = update_seen_keys [item_A_u2] seen_u1
   \<and> load_seen_keys seen_u1 \<noteq> None
   \<and> store_keys (update_seen_keys [item_A_u2] seen_u1) = {''A||u1'', ''A||u2''}
   \<and> [item_A_u2] \<noteq> []
   \<and> distinct (stored_rows (update_seen_keys [item_A_u2] seen_u1))"
proof -
  have h: "load_seen_keys seen_u1 \<noteq> None"
    by (simp add: load_seen_keys_def seen_u1_def)
  have k: "store_keys seen_u1 = {''A||u1''}"
    by (simp add: store_keys_def load_seen_keys_def column_def cell_at_def astype_str_def seen_u1_def)
  show ?thesis
    using h k update_idempotent_union [of "[item_A_u2]" seen_u1]
    by (simp add: key_of_def item_A_u2_def insert_commute)
qed

text \<open>
  C4 (append-only invariant). Along every sequence of \<^verbatim>\<open>filter_new_items\<close> and
  \<^verbatim>\<open>update_seen_keys\<close> calls, a key that the store holds at some point is held after every
  later call: the set of persisted keys only grows.
\<close>

theorem seen_keys_never_removed:
  assumes "k \<in> store_keys (run ops st)"
  shows "k \<in> store_keys (run (ops @ later) st)"
proof -
  have "run (ops @ later) st = run later (run ops st)"
    by (simp add: run_def)
  then show ?thesis
    using assms store_keys_run_mono [of "run ops st" later] by auto
qed

theorem seen_keys_never_removed_witness:
  "''A||u1'' \<in> store_keys (run [Classify [item_A_u1]] None)
   \<and> ''A||u1'' \<in> store_keys (run ([Classify [item_A_u1]] @ [Classify [item_A_u2], Update []]) None)"
proof -
  have h: "''A||u1'' \<in> store_keys (run [Classify [item_A_u1]] None)"
    by (simp add: store_defs example_defs)
  show ?thesis
    using h seen_keys_never_removed [OF h, of "[Classify [item_A_u2], Update []]"] by simp
qed




text \<open>
  For a row whose summary is a string the score is as the specification has it: the
  number of the first run of decimal digits of the reply, clamped into 0 to 100; 0 for a
  reply without a digit, for a reply without content and for a call that raises.
\<close>

lemma score_of_reply:
  assumes "summary it = Some s"
  shows "(client (Score (score_prompt prof it s)) = Returned (Some reply) \<longrightarrow>
            score_item_with_deepseek client prof it
              = Inr (if filter is_digit reply = [] then 0
                     else min 100 (real (spec_decimal (spec_first_digit_run reply)))))
       \<and> (client (Score (score_prompt prof it s)) = Returned None \<longrightarrow>
            score_item_with_deepseek client prof it = Inr 0)
       \<and> (client (Score (score_prompt prof it s)) = Raised \<longrightarrow>
            score_item_with_deepseek client prof it = Inr 0)"
proof -
  have run: "spec_first_digit_run (strip reply) = [] \<longleftrightarrow> filter is_digit reply = []"
    by (simp add: first_run_strip first_run_empty filter_empty_conv)
  have val: "max 0 (min 100 (float_of_digits (spec_first_digit_run reply)))
               = min 100 (real (spec_decimal (spec_first_digit_run reply)))"
    by (simp add: float_of_digits_spec [OF first_run_digits])
  show ?thesis
    using assms run val
    by (simp add: score_item_with_deepseek_def findall_digits_first [of "strip reply"]
        first_run_strip)
qed

lemma score_of_reply_examples:
  "score_item_with_deepseek demo_service ''nlp'' item_A_u1 = Inr 85
   \<and> score_item_with_deepseek demo_service ''nlp'' (item_A_u1\<lparr>title := ''sixth''\<rparr>) = Inr 7
   \<and> score_item_with_deepseek demo_service ''nlp'' item_A_u2 = Inr 100
   \<and> score_item_with_deepseek demo_service ''nlp'' (item_A_u1\<lparr>title := ''fourth''\<rparr>) = Inr 0
   \<and> score_item_with_deepseek demo_service ''nlp'' (item_A_u1\<lparr>title := ''fifth''\<rparr>) = Inr 0
   \<and> score_item_with_deepseek demo_service ''nlp'' item_B_u3 = Inr 0
   \<and> spec_decimal (spec_first_digit_run ''Score: 7 (of 100)'') = 7
   \<and> spec_decimal (spec_first_digit_run ''85'') = 85"
  by (simp add: oracle_defs demo_service_def item_defs)

text \<open>
  C6 (score clamping and fail-soft), where the source falls short of it. For the row
  \<open>item_C_u5\<close>, whose summary cell is the \<^verbatim>\<open>NaN\<close> that \<^verbatim>\<open>read_csv\<close> yields for an empty
  summary field, \<^verbatim>\<open>score_item_with_deepseek\<close> returns no score: \<^verbatim>\<open>summary.strip()\<close> raises
  \<^verbatim>\<open>AttributeError\<close> before the \<^verbatim>\<open>try\<close>, whatever the service would reply, and
  \<^verbatim>\<open>personalized_recommendations\<close> passes the exception on. The same row with a string
  for its summary is scored 85, the number the service replies.
\<close>

theorem score_nan_summary_raises:
  "score_item_with_deepseek demo_service ''nlp'' item_C_u5 = Inl AttributeError
   \<and> score_item_with_deepseek failing_service ''nlp'' item_C_u5 = Inl AttributeError
   \<and> score_item_with_deepseek demo_service ''nlp'' (item_C_u5\<lparr>summary := Some ''s5''\<rparr>) = Inr 85
   \<and> personalized_recommendations (sort_desc ts_below) (sort_desc score_below) (Some ''k'')
        demo_service [item_A_u1, item_C_u5] demo_settings = Inl AttributeError"
  by (simp add: ranking_defs oracle_defs demo_service_def failing_service_def demo_settings_def
      item_defs)

text \<open>
  C8, as stated, fails when no seen list is persisted: the source tests for the baseline
  before it tests for an empty batch, so the empty batch comes back with the baseline flag set.
\<close>

theorem classify_empty_counterexample:
  "filter_new_items [] None = ([], True, None)
   \<and> filter_new_items [] None \<noteq> ([], False, None)"
  by (simp add: filter_new_items_def load_seen_keys_def update_seen_keys_def)

text \<open>
  C8 (empty batch), amended. For the empty batch \<^verbatim>\<open>filter_new_items\<close> returns no rows and
  leaves the store as it found it; the baseline flag is set exactly when \<^verbatim>\<open>load_seen_keys\<close>
  returns \<^verbatim>\<open>None\<close>, and cleared when a seen list is persisted.
\<close>

theorem classify_empty:
  "filter_new_items [] st = ([], load_seen_keys st = None, st)"
  by (simp add: filter_new_items_def update_nil split: option.splits)

theorem classify_empty_witness:
  "filter_new_items [] seen_u1 = ([], False, seen_u1)
   \<and> filter_new_items [] stale_store = ([], True, stale_store)"
  using classify_empty [of seen_u1] classify_empty [of stale_store]
  by (simp add: load_seen_keys_def seen_u1_def stale_store_def)

text \<open>
  C9, as stated, fails on text with white space around it: the source strips the text before
  the call and returns the stripped text when the call raises; a text of white space alone
  is not empty, yet it yields the empty string, without any call.
\<close>

theorem translate_original_counterexample:
  "failing_service (Translate (strip '' a '')) = Raised
   \<and> translate_text_to_zh failing_service '' a '' = ''a''
   \<and> translate_text_to_zh failing_service '' a '' \<noteq> '' a ''
   \<and> '' '' \<noteq> [] \<and> translate_text_to_zh failing_service '' '' = []"
  by (simp add: failing_service_def translate_text_to_zh_def strip_def is_space_def)

text \<open>
  C9 (translate fail-soft), amended. When the translation call raises,
  \<^verbatim>\<open>translate_text_to_zh\<close> returns the input text with the white space at both ends
  stripped; the result is empty exactly when the input consists of white space only.
\<close>

theorem translate_fail_soft:
  assumes "client (Translate (strip text)) = Raised"
  shows "translate_text_to_zh client text = strip text
       \<and> (translate_text_to_zh client text = [] \<longleftrightarrow> list_all is_space text)"
proof -
  have "translate_text_to_zh client text = strip text"
    using assms by (simp add: translate_text_to_zh_def Let_def)
  then show ?thesis
    by (simp add: strip_empty list_all_iff)
qed

theorem translate_fail_soft_witness:
  "failing_service (Translate (strip '' deep learning '')) = Raised
   \<and> translate_text_to_zh failing_service '' deep learning '' = ''deep learning''
   \<and> \<not> list_all is_space '' deep learning ''"
proof -
  have h: "failing_service (Translate (strip '' deep learning '')) = Raised"
    by (simp add: failing_service_def)
  have s: "strip '' deep learning '' = ''deep learning''"
    by (simp add: strip_def is_space_def)
  have n: "\<not> list_all is_space '' deep learning ''"
    by (simp add: is_space_def)
  show ?thesis
    using h s n translate_fail_soft [of failing_service "'' deep learning ''"] by simp
qed

text \<open>
  C10 (an empty update skips persistence). \<^verbatim>\<open>update_seen_keys\<close> on the empty batch leaves
  the store, present or absent, as it is. So a baseline run on the empty batch with no file
  at \<^verbatim>\<open>SEEN_PATH\<close> persists nothing, and the run that follows it is a baseline run again:
  it returns its whole batch with the baseline flag set.
\<close>

theorem empty_update_skips_persistence:
  "update_seen_keys [] st = st
   \<and> filter_new_items [] None = ([], True, None)
   \<and> filter_new_items B (snd (snd (filter_new_items [] None)))
        = (B, True, update_seen_keys B None)"
  by (simp add: filter_new_items_def load_seen_keys_def update_nil)

theorem empty_update_skips_persistence_witness:
  "update_seen_keys [] seen_u1 = seen_u1
   \<and> filter_new_items [] None = ([], True, None)
   \<and> filter_new_items [item_A_u1] (snd (snd (filter_new_items [] None)))
        = ([item_A_u1], True, update_seen_keys [item_A_u1] None)"
  by (rule empty_update_skips_persistence [of seen_u1 "[item_A_u1]"])

end
